theory Spec2Isabelle
  imports Main
begin

section \<open>JavaScript values, objects and the heap\<close>

text \<open>
  The class \<open>WeChat\<close> of \<open>src/index.js\<close> wraps the callback-style functions of a host
  object \<open>wx\<close> into functions that return promises. The model keeps what that code can
  observe of a JavaScript value: whether it is falsy, whether \<open>typeof\<close> says
  \<open>function\<close>, which own enumerable properties \<open>Object.assign\<close> copies from it, and
  which object a reference points to.

  Functions are opaque: \<open>Host n\<close> is any function the program did not create itself,
  \<open>ResolveFn p\<close> and \<open>RejectFn p\<close> are the two functions the promise constructor
  hands to the executor of promise \<open>p\<close>. Objects live on a heap and values refer to
  them by address, so that copying an object and mutating it are different things.
  Numbers are the integers and \<open>NaN\<close>; strings are ASCII. \<open>Error msg\<close> is the object
  made by \<open>new Error(msg)\<close>, its message given as UTF-16 code units; \<open>TypeError t\<close>
  is the error the engine raises itself (its message is engine specific).
\<close>

datatype fn = Host nat | ResolveFn nat | RejectFn nat

datatype type_error = NotAFunction | NullProperty

datatype val =
    Undefined
  | Null
  | Bool bool
  | Num int
  | NaN
  | Str string
  | Ref nat
  | Fun fn
  | Error "nat list"
  | TypeError type_error

type_synonym obj = "string \<rightharpoonup> val"

record world =
  heap :: "obj list"
  promises :: nat

text \<open>\<open>!v\<close> is \<open>\<not> truthy v\<close>: the falsy values are \<open>undefined\<close>, \<open>null\<close>, \<open>false\<close>,
  \<open>0\<close>, \<open>NaN\<close> and the empty string.\<close>

fun truthy :: "val \<Rightarrow> bool" where
  "truthy Undefined = False"
| "truthy Null = False"
| "truthy (Bool b) = b"
| "truthy (Num n) = (n \<noteq> 0)"
| "truthy NaN = False"
| "truthy (Str s) = (s \<noteq> [])"
| "truthy (Ref a) = True"
| "truthy (Fun f) = True"
| "truthy (Error m) = True"
| "truthy (TypeError t) = True"

fun typeof :: "val \<Rightarrow> string" where
  "typeof Undefined = ''undefined''"
| "typeof Null = ''object''"
| "typeof (Bool b) = ''boolean''"
| "typeof (Num n) = ''number''"
| "typeof NaN = ''number''"
| "typeof (Str s) = ''string''"
| "typeof (Ref a) = ''object''"
| "typeof (Fun f) = ''function''"
| "typeof (Error m) = ''object''"
| "typeof (TypeError t) = ''object''"

text \<open>The object at an address. A reference that points outside the heap does not occur
  in a world built by allocation; reading it finds no property.\<close>

definition obj_at :: "obj list \<Rightarrow> nat \<Rightarrow> obj" where
  "obj_at h a = (if a < length h then h ! a else Map.empty)"

text \<open>An object literal \<open>{...}\<close> allocates a new object at the next free address.\<close>

definition alloc :: "obj \<Rightarrow> obj list \<Rightarrow> nat \<times> obj list" where
  "alloc ob h = (length h, h @ [ob])"

text \<open>Decimal notation of an index, the property name of a character of a string.\<close>

fun decimal :: "nat \<Rightarrow> string" where
  "decimal n =
     (if n < 10 then [''0123456789'' ! n]
      else decimal (n div 10) @ [''0123456789'' ! (n mod 10)])"

declare decimal.simps [simp del]

text \<open>The own enumerable properties of a value, as \<open>Object.assign\<close> reads them from a
  source: those of the object for a reference, the characters by index for a string,
  none for \<open>undefined\<close>, \<open>null\<close>, booleans, numbers, functions and error objects.\<close>

fun own_enumerable :: "obj list \<Rightarrow> val \<Rightarrow> obj" where
  "own_enumerable h (Ref a) = obj_at h a"
| "own_enumerable h (Str s) =
     map_of (zip (map decimal [0..<length s]) (map (\<lambda>c. Str [c]) s))"
| "own_enumerable h v = Map.empty"

text \<open>\<open>Object.assign(target, ...sources)\<close> writes the properties of each source, from
  left to right, into the target object in place; a later source overrides an earlier one.
  The target is given by its address and the call returns a reference to it.\<close>

definition assign1 :: "nat \<Rightarrow> obj list \<Rightarrow> val \<Rightarrow> obj list" where
  "assign1 t h src = h[t := obj_at h t ++ own_enumerable h src]"

definition Object_assign :: "obj list \<Rightarrow> nat \<Rightarrow> val list \<Rightarrow> obj list" where
  "Object_assign h t srcs = foldl (assign1 t) h srcs"

text \<open>Reading \<open>base[k]\<close>. On \<open>undefined\<close> and \<open>null\<close> the engine raises a TypeError.
  Only own properties of heap objects are modelled: what a value inherits from
  \<open>Object.prototype\<close> or from the wrapper of a primitive reads as \<open>undefined\<close>.\<close>

fun get_prop :: "obj list \<Rightarrow> val \<Rightarrow> string \<Rightarrow> val + val" where
  "get_prop h Undefined k = Inl (TypeError NullProperty)"
| "get_prop h Null k = Inl (TypeError NullProperty)"
| "get_prop h (Ref a) k = Inr (case obj_at h a k of Some v \<Rightarrow> v | None \<Rightarrow> Undefined)"
| "get_prop h v k = Inr Undefined"

section \<open>Host functions and promises\<close>

text \<open>
  What a called function does is a parameter of the model. Its reaction to a call lists
  the calls it makes to other functions before it returns (\<open>sync\<close>), whether it returns
  a value or throws one (\<open>outcome\<close>), and the calls it makes afterwards, from a later
  task (\<open>later\<close>). The host sees the heap of the moment of the call, so it can read
  the fields of the options object it is given. It may create objects and change objects
  of its own accord: a call it makes is the called value, the arguments and the heap as
  the host has it at that moment, and a value it returns comes with the heap at the
  return. The values it hands over are read on that heap.
\<close>

type_synonym jscall = "val \<times> val list \<times> obj list"

datatype completion = Ret val "obj list" | Thr val

record reaction =
  sync :: "jscall list"
  outcome :: completion
  later :: "jscall list"

type_synonym host = "fn \<Rightarrow> val list \<Rightarrow> obj list \<Rightarrow> reaction"

text \<open>The call \<open>callee(...args)\<close>: a value that is not a function cannot be called, the
  engine throws a TypeError at the call.\<close>

definition call :: "host \<Rightarrow> val \<Rightarrow> val list \<Rightarrow> obj list \<Rightarrow> reaction" where
  "call hst callee args h =
     (case callee of
        Fun f \<Rightarrow> hst f args h
      | _ \<Rightarrow> \<lparr>sync = [], outcome = Thr (TypeError NotAFunction), later = []\<rparr>)"

text \<open>
  A promise is pending until the first call of its \<open>resolve\<close> or \<open>reject\<close> function;
  later calls change nothing. The functions take their first argument (\<open>undefined\<close>
  when called with none). \<open>reject\<close> rejects the promise with any value. \<open>resolve\<close>
  looks at its value first: a thenable, that is an object whose \<open>then\<close> property is a
  function, is not taken as the result. The promise library calls that \<open>then\<close> method
  and the promise follows the thenable: it is fulfilled with the value, or rejected with the
  reason, that the method reports, or stays pending if it reports nothing. So
  \<open>Resolved v\<close> is a promise fulfilled with \<open>v\<close>, and \<open>Follows v\<close> is a promise
  bound to the thenable \<open>v\<close>, whose further fate is that of \<open>v\<close> and is not traced
  here. As with \<open>get_prop\<close>, the \<open>then\<close> property is looked for among the own
  properties of heap objects; functions and error objects are opaque and carry none.
\<close>

datatype settlement = Pending | Resolved val | Rejected val | Follows val

fun arg0 :: "val list \<Rightarrow> val" where
  "arg0 [] = Undefined"
| "arg0 (v # vs) = v"

definition thenable :: "obj list \<Rightarrow> val \<Rightarrow> bool" where
  "thenable h v = (case get_prop h v ''then'' of Inr (Fun f) \<Rightarrow> True | _ \<Rightarrow> False)"

definition resolution :: "obj list \<Rightarrow> val \<Rightarrow> settlement" where
  "resolution h v = (if thenable h v then Follows v else Resolved v)"

fun settle :: "nat \<Rightarrow> settlement \<Rightarrow> jscall \<Rightarrow> settlement" where
  "settle p Pending (Fun (ResolveFn q), vs, h) = (if q = p then resolution h (arg0 vs) else Pending)"
| "settle p Pending (Fun (RejectFn q), vs, h) = (if q = p then Rejected (arg0 vs) else Pending)"
| "settle p s c = s"

section \<open>The class WeChat\<close>

record WeChat =
  wx :: val

definition constructor :: "val \<Rightarrow> WeChat" where
  "constructor w = \<lparr>wx = w\<rparr>"

text \<open>The message of the error thrown when \<open>this.wx\<close> is falsy: the letters \<open>wx\<close>
  followed by the code units U+5BF9 U+8C61 U+4E0D U+5B58 U+5728.\<close>

definition wx_missing :: val where
  "wx_missing = Error [0x77, 0x78, 0x5BF9, 0x8C61, 0x4E0D, 0x5B58, 0x5728]"

text \<open>
  The result of calling the arrow function that \<open>promisify\<close> returns: the promise it
  created and returned, the call \<open>api(...)\<close> its executor made (called value and
  arguments; the host is entered only if the called value is a function), the world at
  that call, and the state of the promise when the arrow function returns and after the
  host's later calls.
\<close>

record invocation =
  promise :: nat
  host_call :: "val \<times> val list"
  world_call :: world
  at_return :: settlement
  final :: settlement

text \<open>
  The arrow function \<open>(options, ...params) => new Promise((resolve, reject) => {...})\<close>,
  closed over \<open>api\<close>. The promise constructor runs the executor at once and turns an
  exception of the executor into a call of \<open>reject\<close>, as promise constructors do; the
  statements below rely on this for the TypeError of a call only. In the first branch the
  functions \<open>resolve\<close> and \<open>reject\<close> stay inside the executor, in the second they
  reach the host as fields of the merged object.
\<close>

definition invoker :: "val \<Rightarrow> host \<Rightarrow> val list \<Rightarrow> world \<Rightarrow> invocation" where
  "invoker api hst arguments w =
     (let options = arg0 arguments;
          params = drop 1 arguments;
          p = promises w;
          w1 = w\<lparr>promises := Suc p\<rparr>;
          resolve = Fun (ResolveFn p);
          reject = Fun (RejectFn p)
      in if typeof options = ''function''
         then
           let r = call hst api [options] (heap w1);
               body = sync r @ (case outcome r of
                                  Ret v hv \<Rightarrow> [(resolve, [v], hv)]
                                | Thr e \<Rightarrow> [(reject, [e], heap w1)])
           in \<lparr>promise = p, host_call = (api, [options]), world_call = w1,
               at_return = foldl (settle p) Pending body,
               final = foldl (settle p) Pending (body @ later r)\<rparr>
         else
           let (t, h1) = alloc Map.empty (heap w1);
               (l, h2) = alloc [''success'' \<mapsto> resolve, ''fail'' \<mapsto> reject] h1;
               h3 = Object_assign h2 t [options, Ref l];
               args = Ref t # params;
               r = call hst api args h3;
               body = sync r @ (case outcome r of
                                  Ret v hv \<Rightarrow> []
                                | Thr e \<Rightarrow> [(reject, [e], h3)])
           in \<lparr>promise = p, host_call = (api, args), world_call = w1\<lparr>heap := h3\<rparr>,
               at_return = foldl (settle p) Pending body,
               final = foldl (settle p) Pending (body @ later r)\<rparr>)"

definition promisify :: "WeChat \<Rightarrow> val \<Rightarrow> val + (host \<Rightarrow> val list \<Rightarrow> world \<Rightarrow> invocation)" where
  "promisify this api =
     (if \<not> truthy (wx this) then Inl wx_missing
      else Inr (invoker api))"

text \<open>\<open>setOption(fun, options)\<close>. A thrown error comes with the world as it is at the
  throw; an absent \<open>options\<close> argument is \<open>undefined\<close>.\<close>

definition setOption :: "WeChat \<Rightarrow> host \<Rightarrow> string \<Rightarrow> val \<Rightarrow> world \<Rightarrow> (val \<times> world) + invocation" where
  "setOption this hst f options w =
     (if \<not> truthy (wx this) then Inl (wx_missing, w)
      else if truthy options then
        (case get_prop (heap w) (wx this) f of
           Inl e \<Rightarrow> Inl (e, w)
         | Inr api \<Rightarrow>
             (case promisify this api of
                Inl e \<Rightarrow> Inl (e, w)
              | Inr invk \<Rightarrow> Inr (invk hst [options] w)))
      else
        (case get_prop (heap w) (wx this) f of
           Inl e \<Rightarrow> Inl (e, w)
         | Inr api \<Rightarrow>
             (case promisify this api of
                Inl e \<Rightarrow> Inl (e, w)
              | Inr invk \<Rightarrow> Inr (invk hst [] w))))"

section \<open>The methods of the class\<close>

text \<open>
  Every other method of the class is declared \<open>async\<close>. An async function creates
  its own promise when it is called and always returns it: if the body throws, that promise
  is rejected with the thrown value; if the body returns the promise of an invocation, the
  returned promise takes the settlement of that one.
\<close>

record async_call =
  returned :: nat
  body :: "(val \<times> world) + invocation"

definition async :: "(world \<Rightarrow> (val \<times> world) + invocation) \<Rightarrow> world \<Rightarrow> async_call" where
  "async bdy w = (let q = promises w in \<lparr>returned = q, body = bdy (w\<lparr>promises := Suc q\<rparr>)\<rparr>)"

definition settled :: "async_call \<Rightarrow> settlement" where
  "settled c = (case body c of Inl (e, w) \<Rightarrow> Rejected e | Inr i \<Rightarrow> final i)"

text \<open>The pass-through methods all have the body \<open>return this.setOption('name', options)\<close>
  with their own name; \<open>login\<close> and \<open>request\<close> are two of them.\<close>

definition pass_through :: "string \<Rightarrow> WeChat \<Rightarrow> host \<Rightarrow> val \<Rightarrow> world \<Rightarrow> async_call" where
  "pass_through name this hst options w = async (setOption this hst name options) w"

definition login :: "WeChat \<Rightarrow> host \<Rightarrow> val \<Rightarrow> world \<Rightarrow> async_call" where
  "login = pass_through ''login''"

definition request :: "WeChat \<Rightarrow> host \<Rightarrow> val \<Rightarrow> world \<Rightarrow> async_call" where
  "request = pass_through ''request''"

text \<open>
  The four methods \<open>get\<close>, \<open>post\<close>, \<open>put\<close> and \<open>delete\<close> share one body up to
  the literal of the HTTP method:
  \<open>async post(url = '', data = {}, header) { return this.setOption('request',
  Object.assign({}, { method: 'POST', url, data, header })); }\<close>.
  A parameter that is \<open>undefined\<close> takes its default; the default \<open>{}\<close> of
  \<open>data\<close> is a new object. The arguments of \<open>Object.assign\<close> are evaluated from
  left to right.
\<close>

definition verb_request ::
  "string \<Rightarrow> WeChat \<Rightarrow> host \<Rightarrow> val \<Rightarrow> val \<Rightarrow> val \<Rightarrow> world \<Rightarrow> async_call" where
  "verb_request m this hst url data header w =
     async (\<lambda>w0.
       let url1 = (if url = Undefined then Str [] else url);
           (data1, h1) = (if data = Undefined
                          then (let (d, h) = alloc Map.empty (heap w0) in (Ref d, h))
                          else (data, heap w0));
           (t, h2) = alloc Map.empty h1;
           (l, h3) = alloc [''method'' \<mapsto> Str m, ''url'' \<mapsto> url1,
                            ''data'' \<mapsto> data1, ''header'' \<mapsto> header] h2;
           h4 = Object_assign h3 t [Ref l]
       in setOption this hst ''request'' (Ref t) (w0\<lparr>heap := h4\<rparr>)) w"

definition get :: "WeChat \<Rightarrow> host \<Rightarrow> val \<Rightarrow> val \<Rightarrow> val \<Rightarrow> world \<Rightarrow> async_call" where
  "get = verb_request ''GET''"




section \<open>The specification of invokeByName\<close>

text \<open>
  The specification describes \<open>setOption\<close> under the name \<open>invokeByName\<close>, as a
  composition with \<open>convert\<close> (here \<open>promisify\<close> applied to the named field): it fails
  with the error of the missing capability object if the held reference is \<open>null\<close> or
  \<open>undefined\<close>, and is otherwise the invoker called with \<open>options\<close> when
  \<open>options\<close> is present and with no argument when it is absent. This definition
  follows those words, not the code.
\<close>

definition invokeByName_spec ::
  "WeChat \<Rightarrow> host \<Rightarrow> string \<Rightarrow> val \<Rightarrow> world \<Rightarrow> (val \<times> world) + invocation" where
  "invokeByName_spec this hst operationName options w =
     (if wx this = Undefined \<or> wx this = Null then Inl (wx_missing, w)
      else
        (case get_prop (heap w) (wx this) operationName of
           Inl e \<Rightarrow> Inl (e, w)
         | Inr api \<Rightarrow>
             (case promisify this api of
                Inl e \<Rightarrow> Inl (e, w)
              | Inr convert \<Rightarrow>
                  Inr (convert hst (if options = Undefined then [] else [options]) w))))"

section \<open>A fake capability object\<close>

text \<open>
  A small host to run the methods on. \<open>Host 0\<close> calls the \<open>success\<close> field of the
  options it is given before it returns; \<open>Host 1\<close> returns and calls the \<open>fail\<close>
  field later; \<open>Host 2\<close> takes a bare callback and returns a value; \<open>Host 3\<close> calls
  \<open>success\<close> with its second argument; \<open>Host 4\<close> creates an object with a
  \<open>then\<close> method and calls \<open>success\<close> with it; \<open>Host 6\<close> takes a bare callback
  and returns such an object; any other function returns without calling anything. The
  capability object of \<open>world0\<close> has the first three under the names \<open>login\<close>,
  \<open>request\<close> and \<open>onSocketOpen\<close>, that of \<open>world1\<close> has \<open>Host 4\<close> as
  \<open>getSetting\<close>; the second object of both heaps is an options object of a caller.
\<close>

definition idle :: "obj list \<Rightarrow> reaction" where
  "idle h = \<lparr>sync = [], outcome = Ret Undefined h, later = []\<rparr>"

definition field :: "obj list \<Rightarrow> val list \<Rightarrow> string \<Rightarrow> val" where
  "field h args k = (case get_prop h (arg0 args) k of Inl e \<Rightarrow> Undefined | Inr v \<Rightarrow> v)"

definition fake :: host where
  "fake f args h =
     (if f = Host 0 then (idle h)\<lparr>sync := [(field h args ''success'', [Str ''login:ok''], h)]\<rparr>
      else if f = Host 1 then
        (idle h)\<lparr>later := [(field h args ''fail'', [Str ''request:fail timeout''], h)]\<rparr>
      else if f = Host 2 then (idle h)\<lparr>outcome := Ret (Str ''listening'') h\<rparr>
      else if f = Host 3 then (idle h)\<lparr>sync := [(field h args ''success'', [arg0 (drop 1 args)], h)]\<rparr>
      else if f = Host 4 then
        (idle h)\<lparr>sync := [(field h args ''success'', [Ref (length h)],
                             h @ [[''then'' \<mapsto> Fun (Host 5)]])]\<rparr>
      else if f = Host 6 then
        (idle h)\<lparr>outcome := Ret (Ref (length h)) (h @ [[''then'' \<mapsto> Fun (Host 5)]])\<rparr>
      else idle h)"

definition world0 :: world where
  "world0 =
     \<lparr>heap = [[''login'' \<mapsto> Fun (Host 0), ''request'' \<mapsto> Fun (Host 1),
               ''onSocketOpen'' \<mapsto> Fun (Host 2)],
              [''timeout'' \<mapsto> Num 5]],
      promises = 0\<rparr>"

definition world1 :: world where
  "world1 =
     \<lparr>heap = [[''getSetting'' \<mapsto> Fun (Host 4)], [''timeout'' \<mapsto> Num 5]],
      promises = 0\<rparr>"

definition adapter0 :: WeChat where
  "adapter0 = constructor (Ref 0)"

section \<open>Facts about the heap and about settlement\<close>

lemma falsy_values: "(\<not> truthy c) = (c \<in> {Undefined, Null, Bool False, Num 0, NaN, Str []})"
  by (cases c) auto

lemma obj_at_append_old: "a < length h \<Longrightarrow> obj_at (h @ xs) a = obj_at h a"
  by (simp add: obj_at_def nth_append)

lemma obj_at_append_new: "obj_at (h @ x # xs) (length h) = x"
  by (simp add: obj_at_def)

text \<open>Allocating the target and the literal of the callbacks does not change what
  \<open>Object.assign\<close> then copies from the options, even for a reference that points
  outside the old heap.\<close>

lemma own_enumerable_fresh:
  "own_enumerable (h @ [Map.empty, lit]) v ++ lit = own_enumerable h v ++ lit"
proof (cases v)
  case (Ref a)
  consider "a < length h" | "a = length h" | "a = Suc (length h)" | "Suc (length h) < a"
    by linarith
  then show ?thesis
    by cases (simp_all add: Ref obj_at_def nth_append map_add_subsumed1)
qed simp_all

lemma merged_heap:
  "Object_assign (h @ [Map.empty, lit]) (length h) [v, Ref (Suc (length h))]
     = h @ [own_enumerable h v ++ lit, lit]"
proof -
  have "assign1 (length h) (h @ [Map.empty, lit]) v
          = h @ [own_enumerable (h @ [Map.empty, lit]) v, lit]"
    by (simp add: assign1_def obj_at_def)
  moreover have "assign1 (length h) (h @ [m, lit]) (Ref (Suc (length h))) = h @ [m ++ lit, lit]"
    for m
    by (simp add: assign1_def obj_at_def nth_append)
  ultimately show ?thesis
    by (simp add: Object_assign_def own_enumerable_fresh)
qed

lemma settle_keeps: "s \<noteq> Pending \<Longrightarrow> settle p s c = s"
  by (cases s) simp_all

lemma settle_settled: "s \<noteq> Pending \<Longrightarrow> foldl (settle p) s cs = s"
  by (induction cs) (simp_all add: settle_keeps)

text \<open>The first call of one of the two functions of a promise decides its settlement.\<close>

lemma settle_first:
  "foldl (settle p) Pending cs =
     (case find (\<lambda>c. fst c = Fun (ResolveFn p) \<or> fst c = Fun (RejectFn p)) cs of
        None \<Rightarrow> Pending
      | Some c \<Rightarrow> settle p Pending c)"
proof (induction cs)
  case Nil
  show ?case by simp
next
  case (Cons c cs)
  obtain callee vs hc where c: "c = (callee, vs, hc)" by (cases c)
  show ?case
  proof (cases "callee = Fun (ResolveFn p) \<or> callee = Fun (RejectFn p)")
    case True
    then have "settle p Pending c \<noteq> Pending" by (auto simp: c resolution_def split: if_splits)
    then show ?thesis using True by (simp add: settle_settled c)
  next
    case False
    then have "settle p Pending c = Pending"
      by (cases "(p, Pending, c)" rule: settle.cases) (auto simp: c)
    then show ?thesis using False Cons.IH by (simp add: c)
  qed
qed

text \<open>The two branches of the arrow function, with the allocations carried out.\<close>

lemma invoker_options:
  assumes "typeof (arg0 arguments) \<noteq> ''function''"
  shows "invoker api hst arguments w =
     (let p = promises w; t = length (heap w);
          lit = [''success'' \<mapsto> Fun (ResolveFn p), ''fail'' \<mapsto> Fun (RejectFn p)];
          h3 = heap w @ [own_enumerable (heap w) (arg0 arguments) ++ lit, lit];
          args = Ref t # drop 1 arguments;
          r = call hst api args h3;
          body = sync r @ (case outcome r of Ret v hv \<Rightarrow> [] | Thr e \<Rightarrow> [(Fun (RejectFn p), [e], h3)])
      in \<lparr>promise = p, host_call = (api, args), world_call = \<lparr>heap = h3, promises = Suc p\<rparr>,
          at_return = foldl (settle p) Pending body,
          final = foldl (settle p) Pending (body @ later r)\<rparr>)"
  using assms
    merged_heap [of "heap w" "[''success'' \<mapsto> Fun (ResolveFn (promises w)),
                               ''fail'' \<mapsto> Fun (RejectFn (promises w))]" "arg0 arguments"]
  by (simp add: invoker_def alloc_def Let_def split: completion.splits)

lemma invoker_bare:
  assumes "typeof (arg0 arguments) = ''function''"
  shows "invoker api hst arguments w =
     (let p = promises w;
          r = call hst api [arg0 arguments] (heap w);
          body = sync r @ (case outcome r of
                             Ret v hv \<Rightarrow> [(Fun (ResolveFn p), [v], hv)]
                           | Thr e \<Rightarrow> [(Fun (RejectFn p), [e], heap w)])
      in \<lparr>promise = p, host_call = (api, [arg0 arguments]), world_call = w\<lparr>promises := Suc p\<rparr>,
          at_return = foldl (settle p) Pending body,
          final = foldl (settle p) Pending (body @ later r)\<rparr>)"
  using assms by (simp add: invoker_def Let_def split: completion.splits)

lemma present_capability_returns:
  "truthy (wx this) \<Longrightarrow> \<exists>i. setOption this hst f options w = Inr i"
  by (cases "wx this") (auto simp: setOption_def promisify_def)

text \<open>A falsy options value has no property to copy and is no function, so passing it
  and passing nothing are the same call.\<close>

lemma invoker_falsy:
  assumes "\<not> truthy v"
  shows "invoker api hst [v] w = invoker api hst [] w"
proof -
  have "typeof v \<noteq> ''function''" and "own_enumerable (heap w) v = Map.empty"
    using assms by (cases v; simp)+
  then show ?thesis
    by (simp add: invoker_options Let_def)
qed

lemma setOption_invoker:
  assumes "truthy (wx this)" and "get_prop (heap w) (wx this) f = Inr api"
  shows "setOption this hst f options w = Inr (invoker api hst [options] w)"
  using assms by (simp add: setOption_def promisify_def invoker_falsy)

lemma get_prop_present: "truthy c \<Longrightarrow> \<exists>api. get_prop h c k = Inr api"
  by (cases c) simp_all

lemma call_not_callable:
  "typeof api \<noteq> ''function'' \<Longrightarrow>
     call hst api args h = \<lparr>sync = [], outcome = Thr (TypeError NotAFunction), later = []\<rparr>"
  by (cases api) (simp_all add: call_def)

lemma invoker_extends_heap:
  "take (length (heap w)) (heap (world_call (invoker api hst arguments w))) = heap w"
  by (cases "typeof (arg0 arguments) = ''function''")
     (simp_all add: invoker_options invoker_bare Let_def)

lemma setOption_extends_heap:
  "setOption this hst f options w = Inr i \<Longrightarrow>
     take (length (heap w)) (heap (world_call i)) = heap w"
  by (auto simp: setOption_def promisify_def invoker_extends_heap split: if_splits sum.splits)

lemma copied_literal:
  "Object_assign (h @ [Map.empty, lit]) (length h) [Ref (Suc (length h))] = h @ [lit, lit]"
  by (simp add: Object_assign_def assign1_def obj_at_def nth_append)

lemma setOption_present:
  assumes "wx this = Ref c" and "truthy options"
  shows "setOption this hst f options w
           = Inr (invoker (case obj_at (heap w) c f of Some v \<Rightarrow> v | None \<Rightarrow> Undefined)
                    hst [options] w)"
  using assms by (simp add: setOption_def promisify_def)

text \<open>The body of a method for an HTTP verb, with its allocations carried out.\<close>

lemma verb_request_heap:
  "\<exists>h4. length (heap w) < length h4 \<and> take (length (heap w)) h4 = heap w \<and>
     body (verb_request m this hst url data header w)
       = setOption this hst ''request'' (Ref (length h4 - 2))
           (w\<lparr>promises := Suc (promises w), heap := h4\<rparr>)"
proof (cases "data = Undefined")
  case True
  have "body (verb_request m this hst url data header w)
          = setOption this hst ''request'' (Ref (Suc (length (heap w))))
              (w\<lparr>promises := Suc (promises w),
                 heap := (heap w @ [Map.empty]) @
                   [[''method'' \<mapsto> Str m, ''url'' \<mapsto> (if url = Undefined then Str [] else url),
                     ''data'' \<mapsto> Ref (length (heap w)), ''header'' \<mapsto> header],
                    [''method'' \<mapsto> Str m, ''url'' \<mapsto> (if url = Undefined then Str [] else url),
                     ''data'' \<mapsto> Ref (length (heap w)), ''header'' \<mapsto> header]]\<rparr>)"
    using True
    by (simp add: verb_request_def async_def alloc_def Let_def
          copied_literal [of "heap w @ [Map.empty]", simplified])
  then show ?thesis
    by (intro exI [of _ "(heap w @ [Map.empty]) @ [_, _]"]) simp
next
  case False
  have "body (verb_request m this hst url data header w)
          = setOption this hst ''request'' (Ref (length (heap w)))
              (w\<lparr>promises := Suc (promises w),
                 heap := heap w @
                   [[''method'' \<mapsto> Str m, ''url'' \<mapsto> (if url = Undefined then Str [] else url),
                     ''data'' \<mapsto> data, ''header'' \<mapsto> header],
                    [''method'' \<mapsto> Str m, ''url'' \<mapsto> (if url = Undefined then Str [] else url),
                     ''data'' \<mapsto> data, ''header'' \<mapsto> header]]\<rparr>)"
    using False
    by (simp add: verb_request_def async_def alloc_def Let_def copied_literal)
  then show ?thesis
    by (intro exI [of _ "heap w @ [_, _]"]) simp
qed

lemma verb_request_body:
  assumes "wx this = Ref c" and "c < length (heap w)"
  shows "body (verb_request m this hst url data header w) =
     (let h1 = (if data = Undefined then heap w @ [Map.empty] else heap w);
          lit = [''method'' \<mapsto> Str m, ''url'' \<mapsto> (if url = Undefined then Str [] else url),
                 ''data'' \<mapsto> (if data = Undefined then Ref (length (heap w)) else data),
                 ''header'' \<mapsto> header]
      in Inr (invoker (case obj_at (heap w) c ''request'' of Some v \<Rightarrow> v | None \<Rightarrow> Undefined) hst
               [Ref (length h1)] (w\<lparr>promises := Suc (promises w), heap := h1 @ [lit, lit]\<rparr>)))"
  using assms
  by (simp add: verb_request_def async_def alloc_def Let_def copied_literal setOption_present
        obj_at_append_old copied_literal [of "heap w @ [Map.empty]", simplified])

section \<open>The missing capability object\<close>

text \<open>
  Claim C3, as the code has it. When the held reference \<open>this.wx\<close> is \<open>null\<close> or
  \<open>undefined\<close>, a direct call of \<open>setOption\<close>, for every operation name and every
  options value, and of \<open>promisify\<close>, for every \<open>api\<close>, throws the error with the
  message of the missing \<open>wx\<close> object: no invocation is started, no promise is created,
  and the world at the throw is the world of the call. The named methods are declared
  \<open>async\<close> and do not throw: a pass-through method and a method for an HTTP verb each
  create and return their promise, and the error that \<open>setOption\<close> throws in their body
  is the rejection of that promise.
\<close>

theorem absent_capability_throws:
  "wx this = Undefined \<or> wx this = Null \<Longrightarrow>
     setOption this hst f options w = Inl (wx_missing, w) \<and>
     promisify this api = Inl wx_missing \<and>
     returned (pass_through f this hst options w) = promises w \<and>
     settled (pass_through f this hst options w) = Rejected wx_missing \<and>
     returned (verb_request m this hst url data header w) = promises w \<and>
     settled (verb_request m this hst url data header w) = Rejected wx_missing"
proof -
  assume absent: "wx this = Undefined \<or> wx this = Null"
  then have thrown: "setOption this hst' f' options' w' = Inl (wx_missing, w')"
    for hst' f' options' w'
    by (auto simp: setOption_def)
  obtain h4 where "body (verb_request m this hst url data header w)
       = setOption this hst ''request'' (Ref (length h4 - 2))
           (w\<lparr>promises := Suc (promises w), heap := h4\<rparr>)"
    using verb_request_heap by blast
  then have "settled (verb_request m this hst url data header w) = Rejected wx_missing"
    by (simp add: settled_def thrown)
  moreover have "promisify this api = Inl wx_missing"
    using absent by (auto simp: promisify_def)
  moreover have "settled (pass_through f this hst options w) = Rejected wx_missing"
    by (simp add: pass_through_def async_def settled_def Let_def thrown)
  moreover have "returned (pass_through f this hst options w) = promises w"
    and "returned (verb_request m this hst url data header w) = promises w"
    by (simp_all add: pass_through_def verb_request_def async_def Let_def)
  ultimately show ?thesis
    using thrown by simp
qed

theorem absent_capability_throws_witness:
  "(wx (constructor Null) = Undefined \<or> wx (constructor Null) = Null) \<and>
   setOption (constructor Null) fake ''login'' (Ref 1) world0
     = Inl (Error [0x77, 0x78, 0x5BF9, 0x8C61, 0x4E0D, 0x5B58, 0x5728], world0) \<and>
   promisify (constructor Null) (Fun (Host 0))
     = Inl (Error [0x77, 0x78, 0x5BF9, 0x8C61, 0x4E0D, 0x5B58, 0x5728]) \<and>
   returned (pass_through ''login'' (constructor Null) fake (Ref 1) world0) = 0 \<and>
   settled (pass_through ''login'' (constructor Null) fake (Ref 1) world0)
     = Rejected (Error [0x77, 0x78, 0x5BF9, 0x8C61, 0x4E0D, 0x5B58, 0x5728]) \<and>
   settled (verb_request ''POST'' (constructor Null) fake (Str ''/x'') Undefined Undefined world0)
     = Rejected (Error [0x77, 0x78, 0x5BF9, 0x8C61, 0x4E0D, 0x5B58, 0x5728])"
proof -
  have p: "promises world0 = 0"
    by (simp add: world0_def)
  show ?thesis
    using absent_capability_throws [of "constructor Null" fake "''login''" "Ref 1" world0
        "Fun (Host 0)" "''POST''" "Str ''/x''" Undefined Undefined]
    by (simp add: constructor_def wx_missing_def p)
qed

text \<open>The claim as it is written fails for the methods of the class: on an adapter
  constructed with \<open>null\<close>, \<open>login\<close> returns a promise, the first one created, and
  the error arrives as the rejection of that promise.\<close>

theorem absent_capability_counterexample:
  "returned (login (constructor Null) fake (Ref 1) world0) = 0 \<and>
   settled (login (constructor Null) fake (Ref 1) world0) = Rejected wx_missing"
  by (simp add: login_def pass_through_def async_def settled_def setOption_def constructor_def
        world0_def Let_def)



section \<open>Settlement by the callbacks\<close>

text \<open>
  Claim C1, as the code has it. Let the capability object be present, let its field
  \<open>f\<close> be a function and let \<open>options\<close> be no function. The method named \<open>f\<close>
  then returns a promise that takes the settlement of the promise of one invocation, the
  host function is called with one object, and that object carries a \<open>success\<close> and a
  \<open>fail\<close> field. Let the host function return normally and consider the first call it
  makes to either of the two, before or after returning. If it is \<open>fail(E)\<close>, the
  promise is rejected with \<open>E\<close>, whatever \<open>E\<close> is. If it is \<open>success(V)\<close> and
  \<open>V\<close> is not a thenable, the promise is fulfilled with \<open>V\<close>, the argument as the
  host passed it. If \<open>V\<close> is a thenable, the promise is not fulfilled with \<open>V\<close>: it
  follows \<open>V\<close>.
\<close>

theorem callback_value_settles_promise:
  assumes "truthy (wx this)"
    and "get_prop (heap w) (wx this) f = Inr (Fun g)"
    and "typeof options \<noteq> ''function''"
  shows "\<exists>i a succ fl.
           body (pass_through f this hst options w) = Inr i \<and>
           settled (pass_through f this hst options w) = final i \<and>
           host_call i = (Fun g, [Ref a]) \<and>
           obj_at (heap (world_call i)) a ''success'' = Some succ \<and>
           obj_at (heap (world_call i)) a ''fail'' = Some fl \<and>
           (let r = hst g [Ref a] (heap (world_call i));
                first = find (\<lambda>c. fst c = succ \<or> fst c = fl) (sync r @ later r)
            in \<forall>u hu vs hc. outcome r = Ret u hu \<longrightarrow>
                 (first = Some (succ, vs, hc) \<and> \<not> thenable hc (arg0 vs)
                    \<longrightarrow> final i = Resolved (arg0 vs)) \<and>
                 (first = Some (succ, vs, hc) \<and> thenable hc (arg0 vs)
                    \<longrightarrow> final i = Follows (arg0 vs)) \<and>
                 (first = Some (fl, vs, hc) \<longrightarrow> final i = Rejected (arg0 vs)))"
proof -
  let ?p = "Suc (promises w)"
  let ?a = "length (heap w)"
  let ?i = "invoker (Fun g) hst [options] (w\<lparr>promises := Suc (promises w)\<rparr>)"
  let ?r = "hst g [Ref ?a] (heap (world_call ?i))"
  let ?mine = "\<lambda>c. fst c = Fun (ResolveFn ?p) \<or> fst c = Fun (RejectFn ?p)"
  have b: "body (pass_through f this hst options w) = Inr ?i"
    using assms(1,2) by (simp add: pass_through_def async_def Let_def setOption_invoker)
  have s: "settled (pass_through f this hst options w) = final ?i"
    by (simp add: settled_def b)
  have c: "host_call ?i = (Fun g, [Ref ?a])"
    using assms(3) by (simp add: invoker_options Let_def)
  have su: "obj_at (heap (world_call ?i)) ?a ''success'' = Some (Fun (ResolveFn ?p))"
    and fa: "obj_at (heap (world_call ?i)) ?a ''fail'' = Some (Fun (RejectFn ?p))"
    using assms(3) by (simp_all add: invoker_options Let_def obj_at_append_new)
  have fin: "final ?i =
      (case find ?mine (sync ?r @ later ?r) of None \<Rightarrow> Pending | Some c \<Rightarrow> settle ?p Pending c)"
    if "outcome ?r = Ret u hu" for u hu
  proof -
    have "final ?i = foldl (settle ?p) Pending (sync ?r @ later ?r)"
      using assms(3) that by (simp add: invoker_options Let_def call_def)
    then show ?thesis
      by (simp only: settle_first)
  qed
  have "\<forall>u hu vs hc. outcome ?r = Ret u hu \<longrightarrow>
          (find ?mine (sync ?r @ later ?r) = Some (Fun (ResolveFn ?p), vs, hc) \<and>
             \<not> thenable hc (arg0 vs) \<longrightarrow> final ?i = Resolved (arg0 vs)) \<and>
          (find ?mine (sync ?r @ later ?r) = Some (Fun (ResolveFn ?p), vs, hc) \<and>
             thenable hc (arg0 vs) \<longrightarrow> final ?i = Follows (arg0 vs)) \<and>
          (find ?mine (sync ?r @ later ?r) = Some (Fun (RejectFn ?p), vs, hc)
             \<longrightarrow> final ?i = Rejected (arg0 vs))"
    using fin by (simp add: resolution_def)
  then show ?thesis
    using b s c su fa unfolding Let_def by blast
qed

theorem callback_value_settles_promise_witness:
  "truthy (wx adapter0) \<and>
   get_prop (heap world0) (wx adapter0) ''login'' = Inr (Fun (Host 0)) \<and>
   typeof (Ref 1) \<noteq> ''function'' \<and>
   settled (pass_through ''login'' adapter0 fake (Ref 1) world0) = Resolved (Str ''login:ok'')"
proof -
  have h1: "truthy (wx adapter0)"
    by (simp add: adapter0_def constructor_def)
  have h2: "get_prop (heap world0) (wx adapter0) ''login'' = Inr (Fun (Host 0))"
    by (simp add: adapter0_def constructor_def world0_def obj_at_def)
  have h3: "typeof (Ref 1) \<noteq> ''function''"
    by simp
  let ?c = "pass_through ''login'' adapter0 fake (Ref 1) world0"
  from callback_value_settles_promise [OF h1 h2 h3, of fake]
  obtain i a succ fl where b: "body ?c = Inr i"
    and s: "settled ?c = final i"
    and c: "host_call i = (Fun (Host 0), [Ref a])"
    and su: "obj_at (heap (world_call i)) a ''success'' = Some succ"
    and fa: "obj_at (heap (world_call i)) a ''fail'' = Some fl"
    and v: "\<And>u hu vs hc. outcome (fake (Host 0) [Ref a] (heap (world_call i))) = Ret u hu \<Longrightarrow>
              find (\<lambda>c. fst c = succ \<or> fst c = fl)
                (sync (fake (Host 0) [Ref a] (heap (world_call i))) @
                 later (fake (Host 0) [Ref a] (heap (world_call i)))) = Some (succ, vs, hc) \<Longrightarrow>
              \<not> thenable hc (arg0 vs) \<Longrightarrow>
              final i = Resolved (arg0 vs)"
    unfolding Let_def by blast
  let ?h = "heap (world_call i)"
  have r: "fake (Host 0) [Ref a] ?h = (idle ?h)\<lparr>sync := [(succ, [Str ''login:ok''], ?h)]\<rparr>"
    using su by (simp add: fake_def field_def)
  have "final i = Resolved (arg0 [Str ''login:ok''])"
    by (rule v [where u = Undefined and hu = ?h and hc = ?h])
       (simp_all add: r idle_def thenable_def)
  then show ?thesis
    using h1 h2 h3 s by simp
qed

text \<open>The claim as it is written fails when the host passes a thenable. The function
  \<open>getSetting\<close> of \<open>world1\<close> makes one call, \<open>success\<close> with the object it has
  created at address 4, and returns; the promise of the method is not fulfilled with that
  object.\<close>

theorem callback_value_counterexample:
  "sync (fake (Host 4) [Ref 2]
     (heap (world_call (projr (body (pass_through ''getSetting'' adapter0 fake (Ref 1) world1))))))
     = [(Fun (ResolveFn 1), [Ref 4],
         heap (world_call (projr (body (pass_through ''getSetting'' adapter0 fake (Ref 1) world1))))
           @ [[''then'' \<mapsto> Fun (Host 5)]])] \<and>
   host_call (projr (body (pass_through ''getSetting'' adapter0 fake (Ref 1) world1)))
     = (Fun (Host 4), [Ref 2]) \<and>
   settled (pass_through ''getSetting'' adapter0 fake (Ref 1) world1) = Follows (Ref 4) \<and>
   settled (pass_through ''getSetting'' adapter0 fake (Ref 1) world1) \<noteq> Resolved (Ref 4)"
proof -
  let ?i = "invoker (Fun (Host 4)) fake [Ref 1] (world1\<lparr>promises := 1\<rparr>)"
  let ?cb = "[''success'' \<mapsto> Fun (ResolveFn 1), ''fail'' \<mapsto> Fun (RejectFn 1)]"
  let ?h = "heap world1 @ [[''timeout'' \<mapsto> Num 5] ++ ?cb, ?cb]"
  have w: "wx adapter0 = Ref 0" "truthy (Ref 1)"
    by (simp_all add: adapter0_def constructor_def)
  have b: "body (pass_through ''getSetting'' adapter0 fake (Ref 1) world1) = Inr ?i"
    by (simp add: pass_through_def async_def Let_def setOption_present w)
       (simp add: world1_def obj_at_def)
  have h: "heap (world_call ?i) = ?h" and c: "host_call ?i = (Fun (Host 4), [Ref 2])"
    by (simp_all add: invoker_options Let_def world1_def obj_at_def)
  have r: "fake (Host 4) [Ref 2] ?h
             = (idle ?h)\<lparr>sync := [(Fun (ResolveFn 1), [Ref 4], ?h @ [[''then'' \<mapsto> Fun (Host 5)]])]\<rparr>"
    by (simp add: fake_def field_def world1_def obj_at_def nth_append)
  have f: "final ?i = Follows (Ref 4)"
    by (simp add: invoker_options Let_def call_def world1_def obj_at_def fake_def field_def
          idle_def resolution_def thenable_def nth_append)
  have pj: "projr (body (pass_through ''getSetting'' adapter0 fake (Ref 1) world1)) = ?i"
    by (simp only: b sum.sel)
  have st: "settled (pass_through ''getSetting'' adapter0 fake (Ref 1) world1) = final ?i"
    by (simp only: settled_def b sum.case)
  have sy: "sync (fake (Host 4) [Ref 2] (heap (world_call ?i)))
              = [(Fun (ResolveFn 1), [Ref 4], heap (world_call ?i) @ [[''then'' \<mapsto> Fun (Host 5)]])]"
    by (simp only: h r) (simp add: idle_def)
  show ?thesis
    unfolding pj st using sy c f by simp
qed

section \<open>A missing host function\<close>

text \<open>
  Claim C2, as the code has it. Let the capability object be present and let its field
  \<open>k\<close> be missing or be no function. Then \<open>setOption(k, options)\<close> does not throw:
  it returns a promise, for every options value. The call of the non-function happens
  inside the executor of that promise, and the promise constructor turns the TypeError
  of that call into the rejection of the promise, which is rejected when \<open>setOption\<close>
  returns.
\<close>

theorem missing_operation_rejects:
  assumes "truthy (wx this)"
    and "get_prop (heap w) (wx this) k = Inr api"
    and "typeof api \<noteq> ''function''"
  shows "\<exists>i. setOption this hst k options w = Inr i \<and>
           at_return i = Rejected (TypeError NotAFunction) \<and>
           final i = Rejected (TypeError NotAFunction)"
proof (cases "typeof options = ''function''")
  case True
  then show ?thesis
    using assms by (simp add: setOption_invoker invoker_bare call_not_callable Let_def)
next
  case False
  then show ?thesis
    using assms by (simp add: setOption_invoker invoker_options call_not_callable Let_def)
qed

theorem missing_operation_rejects_witness:
  "truthy (wx adapter0) \<and>
   get_prop (heap world0) (wx adapter0) ''doesNotExist'' = Inr Undefined \<and>
   typeof Undefined \<noteq> ''function'' \<and>
   (\<exists>i. setOption adapter0 fake ''doesNotExist'' (Ref 1) world0 = Inr i \<and>
         at_return i = Rejected (TypeError NotAFunction) \<and>
         final i = Rejected (TypeError NotAFunction))"
proof -
  have h1: "truthy (wx adapter0)"
    by (simp add: adapter0_def constructor_def)
  have h2: "get_prop (heap world0) (wx adapter0) ''doesNotExist'' = Inr Undefined"
    by (simp add: adapter0_def constructor_def world0_def obj_at_def)
  have h3: "typeof Undefined \<noteq> ''function''"
    by simp
  show ?thesis
    using missing_operation_rejects [OF h1 h2 h3, of fake "Ref 1"] h1 h2 h3 by blast
qed

text \<open>The claim as it is written fails for the example of the specification: with a
  capability object that has no field \<open>doesNotExist\<close>, the call returns (it is not a
  throw) and the promise it returns is rejected.\<close>

theorem missing_operation_counterexample:
  "\<not> isl (setOption adapter0 fake ''doesNotExist'' (Ref 1) world0) \<and>
   final (projr (setOption adapter0 fake ''doesNotExist'' (Ref 1) world0))
     = Rejected (TypeError NotAFunction)"
  by (simp add: setOption_def promisify_def adapter0_def constructor_def world0_def obj_at_def
        invoker_options call_def Let_def)

section \<open>The options object that the host receives\<close>



text \<open>
  Claim C6. When the first argument of the invoker is no function, the host function is
  entered with the reference to the merged object first and then the remaining arguments
  of the invoker, the same values in the same order. The call is made on the heap that
  holds the merged object at that reference, and the promise is settled by what the host
  function does in reaction to exactly this call: the calls it makes before it returns,
  an exception it throws, and the calls it makes later.
\<close>

theorem extra_arguments_forwarded:
  assumes "promisify this (Fun g) = Inr invk"
    and "typeof options \<noteq> ''function''"
  shows "let i = invk hst (options # params) w; p = promise i;
             a = length (heap w); h = heap (world_call i);
             r = hst g (Ref a # params) h;
             thrown = (case outcome r of Ret v hv \<Rightarrow> [] | Thr e \<Rightarrow> [(Fun (RejectFn p), [e], h)])
         in host_call i = (Fun g, Ref a # params) \<and>
            obj_at h a = own_enumerable (heap w) options
                           ++ [''success'' \<mapsto> Fun (ResolveFn p), ''fail'' \<mapsto> Fun (RejectFn p)] \<and>
            at_return i = foldl (settle p) Pending (sync r @ thrown) \<and>
            final i = foldl (settle p) Pending (sync r @ thrown @ later r)"
proof -
  have "invk = invoker (Fun g)"
    using assms(1) by (simp add: promisify_def split: if_splits)
  then show ?thesis
    using assms(2)
    by (simp add: invoker_options Let_def call_def obj_at_append_new split: completion.splits)
qed

theorem extra_arguments_forwarded_witness:
  "promisify adapter0 (Fun (Host 3)) = Inr (invoker (Fun (Host 3))) \<and>
   typeof (Ref 1) \<noteq> ''function'' \<and>
   (let i = invoker (Fun (Host 3)) fake [Ref 1, Num 7, Str ''x'', Null] world0
    in host_call i = (Fun (Host 3), [Ref 2, Num 7, Str ''x'', Null]) \<and>
       obj_at (heap (world_call i)) 2
         = [''timeout'' \<mapsto> Num 5, ''success'' \<mapsto> Fun (ResolveFn 0), ''fail'' \<mapsto> Fun (RejectFn 0)] \<and>
       final i = Resolved (Num 7))"
proof -
  have p: "promisify adapter0 (Fun (Host 3)) = Inr (invoker (Fun (Host 3)))"
    by (simp add: promisify_def adapter0_def constructor_def)
  have t: "typeof (Ref 1) \<noteq> ''function''"
    by simp
  show ?thesis
    using extra_arguments_forwarded [OF p t, of fake "[Num 7, Str ''x'', Null]" world0] p
    by (simp add: Let_def invoker_options call_def world0_def obj_at_def fake_def field_def
          idle_def resolution_def thenable_def)
qed

section \<open>The bare callback\<close>

text \<open>
  Claim C5, as the code has it. When the first argument \<open>F\<close> of the invoker is a
  function, the host function is called with \<open>F\<close> alone: no object is allocated, no
  callback is injected and the further arguments of the invoker are dropped. If the host
  function returns \<open>v\<close> and \<open>v\<close> is not a thenable, the promise is fulfilled with
  \<open>v\<close>, already when the invoker returns. If \<open>v\<close> is a thenable, the promise is not
  fulfilled with \<open>v\<close>: it follows \<open>v\<close>. The resolve and reject functions of the
  promise are not handed to the host in this branch, so the host does not call them; that is
  the last hypothesis.
\<close>

theorem bare_callback_resolves:
  assumes "promisify this (Fun g) = Inr invk"
    and "typeof F = ''function''"
    and "outcome (hst g [F] (heap w)) = Ret v hv"
    and "\<forall>c \<in> set (sync (hst g [F] (heap w))).
           fst c \<noteq> Fun (ResolveFn (promises w)) \<and> fst c \<noteq> Fun (RejectFn (promises w))"
  shows "let i = invk hst (F # params) w
         in host_call i = (Fun g, [F]) \<and> heap (world_call i) = heap w \<and>
            (\<not> thenable hv v \<longrightarrow> at_return i = Resolved v \<and> final i = Resolved v) \<and>
            (thenable hv v \<longrightarrow> at_return i = Follows v \<and> final i = Follows v)"
proof -
  have invk: "invk = invoker (Fun g)"
    using assms(1) by (simp add: promisify_def split: if_splits)
  let ?r = "hst g [F] (heap w)"
  let ?p = "promises w"
  have none: "find (\<lambda>c. fst c = Fun (ResolveFn ?p) \<or> fst c = Fun (RejectFn ?p)) (sync ?r) = None"
    using assms(4) by (auto simp: find_None_iff)
  have "foldl (settle ?p) Pending (sync ?r) = Pending"
    by (simp only: settle_first none option.case)
  then have "foldl (settle ?p) Pending (sync ?r @ [(Fun (ResolveFn ?p), [v], hv)]) = resolution hv v"
    by simp
  moreover have "resolution hv v \<noteq> Pending"
    by (simp add: resolution_def)
  ultimately show ?thesis
    using assms(2,3)
    by (simp add: invk invoker_bare Let_def call_def settle_settled) (simp add: resolution_def)
qed

theorem bare_callback_resolves_witness:
  "promisify adapter0 (Fun (Host 2)) = Inr (invoker (Fun (Host 2))) \<and>
   typeof (Fun (Host 7)) = ''function'' \<and>
   outcome (fake (Host 2) [Fun (Host 7)] (heap world0)) = Ret (Str ''listening'') (heap world0) \<and>
   sync (fake (Host 2) [Fun (Host 7)] (heap world0)) = [] \<and>
   (let i = invoker (Fun (Host 2)) fake [Fun (Host 7), Num 1, Num 2] world0
    in host_call i = (Fun (Host 2), [Fun (Host 7)]) \<and> heap (world_call i) = heap world0 \<and>
       at_return i = Resolved (Str ''listening'') \<and> final i = Resolved (Str ''listening''))"
proof -
  have p: "promisify adapter0 (Fun (Host 2)) = Inr (invoker (Fun (Host 2)))"
    by (simp add: promisify_def adapter0_def constructor_def)
  have t: "typeof (Fun (Host 7)) = ''function''"
    by simp
  have o: "outcome (fake (Host 2) [Fun (Host 7)] (heap world0)) = Ret (Str ''listening'') (heap world0)"
    by (simp add: fake_def idle_def)
  have e: "sync (fake (Host 2) [Fun (Host 7)] (heap world0)) = []"
    by (simp add: fake_def idle_def)
  have s: "\<forall>c \<in> set (sync (fake (Host 2) [Fun (Host 7)] (heap world0))).
      fst c \<noteq> Fun (ResolveFn (promises world0)) \<and> fst c \<noteq> Fun (RejectFn (promises world0))"
    by (simp add: e)
  have n: "\<not> thenable (heap world0) (Str ''listening'')"
    by (simp add: thenable_def)
  show ?thesis
    using bare_callback_resolves [where hst = fake and params = "[Num 1, Num 2]", OF p t o s]
      p t o e n
    by (simp add: Let_def)
qed

text \<open>The claim as it is written fails when the host function returns a thenable.
  \<open>Host 6\<close> called with a bare callback returns the object it has created at address
  2, which has a \<open>then\<close> method; the promise of the invoker is not fulfilled with
  that object.\<close>

theorem bare_callback_counterexample:
  "promisify adapter0 (Fun (Host 6)) = Inr (invoker (Fun (Host 6))) \<and>
   outcome (fake (Host 6) [Fun (Host 7)] (heap world0))
     = Ret (Ref 2) (heap world0 @ [[''then'' \<mapsto> Fun (Host 5)]]) \<and>
   host_call (invoker (Fun (Host 6)) fake [Fun (Host 7)] world0) = (Fun (Host 6), [Fun (Host 7)]) \<and>
   final (invoker (Fun (Host 6)) fake [Fun (Host 7)] world0) = Follows (Ref 2) \<and>
   final (invoker (Fun (Host 6)) fake [Fun (Host 7)] world0) \<noteq> Resolved (Ref 2)"
  by (simp add: promisify_def adapter0_def constructor_def invoker_bare Let_def call_def
        fake_def idle_def world0_def resolution_def thenable_def obj_at_def)

section \<open>setOption against its specification\<close>

text \<open>
  Claim C7. For every adapter, host, operation name, options value and world,
  \<open>setOption\<close> is the composition the specification describes: the invoker of the named
  field called with \<open>options\<close> when it is present and with no argument when it is
  absent. Both sides make the same host call and return promises with the same
  settlement, or throw the same error. The code tests \<open>options\<close> for truthiness and
  \<open>this.wx\<close> for falsiness where the specification says present and absent; the two
  agree because a falsy options value contributes nothing to the merged object and a
  falsy \<open>this.wx\<close> is stopped by \<open>promisify\<close> as well.
\<close>

theorem setOption_refines_invokeByName:
  "setOption this hst f options w = invokeByName_spec this hst f options w"
proof (cases "truthy (wx this)")
  case True
  then obtain api where api: "get_prop (heap w) (wx this) f = Inr api"
    using get_prop_present by blast
  have "wx this \<noteq> Undefined" and "wx this \<noteq> Null"
    using True by auto
  moreover have "invoker api hst [] w = invoker api hst [options] w" if "options = Undefined"
    using that by (simp add: invoker_falsy)
  ultimately show ?thesis
    using True api
    by (simp add: setOption_invoker invokeByName_spec_def promisify_def)
next
  case False
  then have "wx this \<in> {Undefined, Null, Bool False, Num 0, NaN, Str []}"
    by (simp only: falsy_values)
  then show ?thesis
    using False by (auto simp: setOption_def invokeByName_spec_def promisify_def)
qed

theorem setOption_refines_invokeByName_witness:
  "setOption adapter0 fake ''login'' Null world0 = invokeByName_spec adapter0 fake ''login'' Null world0 \<and>
   final (projr (invokeByName_spec adapter0 fake ''login'' Null world0)) = Resolved (Str ''login:ok'') \<and>
   snd (host_call (projr (setOption adapter0 fake ''login'' Null world0))) = [Ref 2]"
proof -
  have "final (projr (invokeByName_spec adapter0 fake ''login'' Null world0)) = Resolved (Str ''login:ok'')"
    by (simp add: invokeByName_spec_def promisify_def adapter0_def constructor_def world0_def
          obj_at_def invoker_options call_def fake_def field_def idle_def Let_def
          resolution_def thenable_def)
  moreover have "snd (host_call (projr (invokeByName_spec adapter0 fake ''login'' Null world0))) = [Ref 2]"
    by (simp add: invokeByName_spec_def promisify_def adapter0_def constructor_def world0_def
          obj_at_def invoker_options Let_def)
  ultimately show ?thesis
    using setOption_refines_invokeByName [of adapter0 fake "''login''" Null world0] by simp
qed

section \<open>The methods for the HTTP verbs\<close>



section \<open>No mutation\<close>

text \<open>
  Claim C9. With the capability object present, \<open>setOption\<close>, the invoker that
  \<open>promisify\<close> returns, the pass-through methods and the methods for the HTTP verbs
  all leave every object that was on the heap before the call as it was: the heap at the
  host call is the old heap followed by newly allocated objects. So the capability
  object and the options object of the caller keep every field, and the callbacks are
  written to a new object only. The adapter itself is a value and is not updated.
\<close>

theorem objects_not_mutated:
  assumes "truthy (wx this)"
  shows "(\<exists>i. setOption this hst f options w = Inr i \<and>
            take (length (heap w)) (heap (world_call i)) = heap w \<and>
            (\<forall>a < length (heap w). obj_at (heap (world_call i)) a = obj_at (heap w) a)) \<and>
         (\<exists>invk. promisify this api = Inr invk \<and>
            take (length (heap w)) (heap (world_call (invk hst arguments w))) = heap w) \<and>
         (\<exists>i. body (pass_through f this hst options w) = Inr i \<and>
            take (length (heap w)) (heap (world_call i)) = heap w) \<and>
         (\<exists>i. body (verb_request m this hst url data header w) = Inr i \<and>
            take (length (heap w)) (heap (world_call i)) = heap w)"
proof -
  obtain i where i: "setOption this hst f options w = Inr i"
    using assms present_capability_returns by blast
  have t: "take (length (heap w)) (heap (world_call i)) = heap w"
    using i by (rule setOption_extends_heap)
  have "obj_at (heap (world_call i)) a = obj_at (heap w) a" if "a < length (heap w)" for a
    using that obj_at_append_old [of a "heap w" "drop (length (heap w)) (heap (world_call i))"]
    by (metis t append_take_drop_id)
  then have one: "\<exists>i. setOption this hst f options w = Inr i \<and>
            take (length (heap w)) (heap (world_call i)) = heap w \<and>
            (\<forall>a < length (heap w). obj_at (heap (world_call i)) a = obj_at (heap w) a)"
    using i t by blast
  have two: "\<exists>invk. promisify this api = Inr invk \<and>
            take (length (heap w)) (heap (world_call (invk hst arguments w))) = heap w"
    using assms by (simp add: promisify_def invoker_extends_heap)
  obtain j where j: "setOption this hst f options (w\<lparr>promises := Suc (promises w)\<rparr>) = Inr j"
    using assms present_capability_returns by blast
  have three: "\<exists>i. body (pass_through f this hst options w) = Inr i \<and>
            take (length (heap w)) (heap (world_call i)) = heap w"
    using j setOption_extends_heap [OF j] by (simp add: pass_through_def async_def Let_def)
  obtain h4 where len: "length (heap w) < length h4" and pre: "take (length (heap w)) h4 = heap w"
    and bd: "body (verb_request m this hst url data header w)
       = setOption this hst ''request'' (Ref (length h4 - 2))
           (w\<lparr>promises := Suc (promises w), heap := h4\<rparr>)"
    using verb_request_heap by blast
  obtain k where k: "setOption this hst ''request'' (Ref (length h4 - 2))
           (w\<lparr>promises := Suc (promises w), heap := h4\<rparr>) = Inr k"
    using assms present_capability_returns by blast
  have "take (length h4) (heap (world_call k)) = h4"
    using setOption_extends_heap [OF k] by simp
  then have "take (length (heap w)) (heap (world_call k)) = heap w"
    using len pre by (metis less_imp_le_nat min.absorb1 take_take)
  then have four: "\<exists>i. body (verb_request m this hst url data header w) = Inr i \<and>
            take (length (heap w)) (heap (world_call i)) = heap w"
    using bd k by simp
  show ?thesis
    using one two three four by blast
qed

theorem objects_not_mutated_witness:
  "truthy (wx adapter0) \<and>
   (\<exists>i. setOption adapter0 fake ''login'' (Ref 1) world0 = Inr i \<and>
      take (length (heap world0)) (heap (world_call i)) = heap world0 \<and>
      obj_at (heap (world_call i)) 1 = [''timeout'' \<mapsto> Num 5])"
proof -
  have h: "truthy (wx adapter0)"
    by (simp add: adapter0_def constructor_def)
  have "obj_at (heap world0) 1 = [''timeout'' \<mapsto> Num 5]" and "1 < length (heap world0)"
    by (simp_all add: world0_def obj_at_def)
  then show ?thesis
    using objects_not_mutated [OF h, of fake "''login''" "Ref 1" world0] h
    by metis
qed

section \<open>The two scenarios of the specification\<close>

text \<open>With a capability object whose \<open>login\<close> calls \<open>success\<close>, \<open>login\<close>
  resolves with the value passed; with a \<open>request\<close> that calls \<open>fail\<close>,
  \<open>get\<close> rejects with the value passed.\<close>

lemma login_example:
  "settled (login adapter0 fake (Ref 1) world0) = Resolved (Str ''login:ok'')"
  by (simp add: login_def pass_through_def async_def settled_def adapter0_def constructor_def
        world0_def setOption_present obj_at_def invoker_options call_def fake_def field_def
        idle_def Let_def resolution_def thenable_def)

lemma get_example:
  "settled (get adapter0 fake (Str ''/x'') Undefined Undefined world0)
     = Rejected (Str ''request:fail timeout'')"
proof -
  have "wx adapter0 = Ref 0" and "0 < length (heap world0)"
    by (simp_all add: adapter0_def constructor_def world0_def)
  then show ?thesis
    by (simp add: get_def settled_def verb_request_body invoker_options call_def Let_def)
       (simp add: world0_def obj_at_def fake_def field_def idle_def nth_append resolution_def
          thenable_def)
qed

end
